theory Spec2Isabelle
  imports Complex_Main
begin

section \<open>Numbers and built-in functions\<close>

text \<open>
  The engine computes with JavaScript Numbers. They are embedded as the real numbers:
  arithmetic and the calls of \<^verbatim>\<open>Math.sin\<close>, \<^verbatim>\<open>Math.cos\<close>, \<^verbatim>\<open>Math.asin\<close>,
  \<^verbatim>\<open>Math.acos\<close> are exact, and the rounding of IEEE-754 doubles is written out where a
  property depends on it: in the solar noon, the sunrise and the sunset of the engine, whose
  values are compared with each other exactly. \<^verbatim>\<open>NaN\<close> and \<^verbatim>\<open>null\<close> appear only where the
  source tests for them (\<^verbatim>\<open>formatTime\<close>) and are the value \<open>None\<close> there. The only division
  whose divisor can vanish over the reals is the one of the sunrise equation, at a
  declination that is an odd multiple of 90 degrees; the theorems about it exclude that
  declination.
\<close>

definition js_trunc :: "real \<Rightarrow> int" where
  "js_trunc x = (if 0 \<le> x then \<lfloor>x\<rfloor> else \<lceil>x\<rceil>)"

text \<open>The operator \<^verbatim>\<open>%\<close>: the remainder has the sign of the dividend.\<close>

definition js_rem :: "real \<Rightarrow> real \<Rightarrow> real" where
  "js_rem a b = a - b * of_int (js_trunc (a / b))"

definition Math_round :: "real \<Rightarrow> int" where
  "Math_round x = \<lfloor>x + 1 / 2\<rfloor>"

definition Math_atan2 :: "real \<Rightarrow> real \<Rightarrow> real" where
  "Math_atan2 y x =
     (if 0 < x then arctan (y / x)
      else if x < 0 \<and> 0 \<le> y then arctan (y / x) + pi
      else if x < 0 then arctan (y / x) - pi
      else if 0 < y then pi / 2
      else if y < 0 then - (pi / 2)
      else 0)"

text \<open>
  The rounding of a real number to an IEEE-754 double (binary64), to nearest with ties to
  the even significand. The unit in the last place of a number in the binade from \<open>2^e\<close> to
  \<open>2^(e+1)\<close> is \<open>2^(e-52)\<close>; below \<open>2^(-1022)\<close>, in the subnormal range, it stays
  \<open>2^(-1074)\<close>. Overflow to \<^verbatim>\<open>Infinity\<close>, from \<open>2^1024\<close> on, is not in the model; no
  operation that is rounded here reaches it on arguments that are doubles.
\<close>

definition round_half_even :: "real \<Rightarrow> int" where
  "round_half_even t =
     (if t - of_int \<lfloor>t\<rfloor> < 1 / 2 then \<lfloor>t\<rfloor>
      else if 1 / 2 < t - of_int \<lfloor>t\<rfloor> then \<lfloor>t\<rfloor> + 1
      else if even \<lfloor>t\<rfloor> then \<lfloor>t\<rfloor>
      else \<lfloor>t\<rfloor> + 1)"

definition double_exp :: "real \<Rightarrow> int" where
  "double_exp v = max \<lfloor>log 2 \<bar>v\<bar>\<rfloor> (- 1022)"

definition fl :: "real \<Rightarrow> real" where
  "fl v =
     (if v = 0 then 0
      else of_int (round_half_even (v / 2 powr of_int (double_exp v - 52)))
           * 2 powr of_int (double_exp v - 52))"

text \<open>
  \<^verbatim>\<open>parseFloat(v.toFixed(2))\<close>: the nearest multiple of 1/100, the larger one on a tie, the
  sign treated apart; from \<open>10^21\<close> on \<^verbatim>\<open>toFixed\<close> prints the number itself.
\<close>

definition toFixed2 :: "real \<Rightarrow> real" where
  "toFixed2 v =
     (if 10 ^ 21 \<le> \<bar>v\<bar> then v
      else if v < 0 then - (of_int \<lfloor>- v * 100 + 1 / 2\<rfloor> / 100)
      else of_int \<lfloor>v * 100 + 1 / 2\<rfloor> / 100)"

fun string_of_nat :: "nat \<Rightarrow> string" where
  "string_of_nat k =
     (if k < 10 then [''0123456789'' ! k]
      else string_of_nat (k div 10) @ [''0123456789'' ! (k mod 10)])"

declare string_of_nat.simps [simp del]

definition toString :: "int \<Rightarrow> string" where
  "toString v = (if v < 0 then CHR ''-'' # string_of_nat (nat (- v)) else string_of_nat (nat v))"

definition padStart :: "string \<Rightarrow> nat \<Rightarrow> char \<Rightarrow> string" where
  "padStart s k c = replicate (k - length s) c @ s"

fun join :: "string list \<Rightarrow> string \<Rightarrow> string" where
  "join [] sep = []"
| "join [s] sep = s"
| "join (s # t # ss) sep = s @ sep @ join (t # ss) sep"

section \<open>Calendar dates\<close>

text \<open>
  A \<^verbatim>\<open>Date\<close> is used through \<^verbatim>\<open>getFullYear\<close>, \<^verbatim>\<open>getMonth\<close> (0 for January) and
  \<^verbatim>\<open>getDate\<close> only, all three in local time, and built with
  \<^verbatim>\<open>new Date(year, monthIndex, day)\<close>, in local time too: the model is the civil date of the
  proleptic Gregorian calendar. The constructor carries a day past the end of its month
  into the following months, takes day 0 as the last day of the month before, and reads a
  year from 0 to 99 as 1900 + year.
\<close>

record date =
  getFullYear :: int
  getMonth :: nat
  getDate :: nat

definition isLeapYear :: "int \<Rightarrow> bool" where
  "isLeapYear y = ((y mod 4 = 0 \<and> y mod 100 \<noteq> 0) \<or> y mod 400 = 0)"

definition daysInMonth :: "int \<Rightarrow> nat \<Rightarrow> nat" where
  "daysInMonth y m =
     (if m = 1 then (if isLeapYear y then 29 else 28)
      else if m = 3 \<or> m = 5 \<or> m = 8 \<or> m = 10 then 30
      else 31)"

function makeDay :: "int \<Rightarrow> nat \<Rightarrow> nat \<Rightarrow> date" where
  "makeDay y m d =
     (if daysInMonth y m < d
      then (if m = 11 then makeDay (y + 1) 0 (d - daysInMonth y m)
            else makeDay y (m + 1) (d - daysInMonth y m))
      else \<lparr>getFullYear = y, getMonth = m, getDate = d\<rparr>)"
  by pat_completeness auto
termination
  by (relation "measure (\<lambda>(y, m, d). d)") (auto simp: daysInMonth_def)

declare makeDay.simps [simp del]

definition new_Date :: "int \<Rightarrow> nat \<Rightarrow> nat \<Rightarrow> date" where
  "new_Date year monthIndex day =
     (let yr = (if 0 \<le> year \<and> year \<le> 99 then 1900 + year else year);
          y = yr + int (monthIndex div 12);
          m = monthIndex mod 12
      in if day = 0
         then (if m = 0 then \<lparr>getFullYear = y - 1, getMonth = 11, getDate = 31\<rparr>
               else \<lparr>getFullYear = y, getMonth = m - 1, getDate = daysInMonth y (m - 1)\<rparr>)
         else makeDay y m day)"

section \<open>Astronomy utilities\<close>

definition J2000_EPOCH :: real where
  "J2000_EPOCH = 2451545.0"

definition DEG2RAD :: real where
  "DEG2RAD = pi / 180"

definition RAD2DEG :: real where
  "RAD2DEG = 180 / pi"

definition normalizeDeg :: "real \<Rightarrow> real" where
  "normalizeDeg angle = js_rem (js_rem angle 360 + 360) 360"

definition toRadians :: "real \<Rightarrow> real" where
  "toRadians deg = deg * DEG2RAD"

definition toDegrees :: "real \<Rightarrow> real" where
  "toDegrees rad = rad * RAD2DEG"

text \<open>\<^verbatim>\<open>formatTime\<close>; the argument \<open>None\<close> is \<^verbatim>\<open>NaN\<close> or \<^verbatim>\<open>null\<close>.\<close>

definition formatTime :: "real option \<Rightarrow> string" where
  "formatTime decimalHours =
     (case decimalHours of
        None \<Rightarrow> ''--:--''
      | Some dh \<Rightarrow>
          (let normalized = js_rem (js_rem dh 24 + 24) 24;
               hours = \<lfloor>normalized\<rfloor>;
               minutes = \<lfloor>(normalized - of_int hours) * 60\<rfloor>;
               seconds = Math_round (((normalized - of_int hours) * 60 - of_int minutes) * 60);
               (seconds, minutes) = (if seconds = 60 then (0, minutes + 1) else (seconds, minutes));
               (minutes, hours) = (if minutes = 60 then (0, hours + 1) else (minutes, hours));
               hours = (if hours = 24 then 0 else hours)
           in join (map (\<lambda>v. padStart (toString v) 2 CHR ''0'') [hours, minutes, seconds]) '':''))"

definition getJulianDate :: "date \<Rightarrow> real \<Rightarrow> real" where
  "getJulianDate dt timeOfDay =
     (let y = getFullYear dt;
          m = int (getMonth dt) + 1;
          day = getDate dt;
          (y, m) = (if m \<le> 2 then (y - 1, m + 12) else (y, m));
          A = \<lfloor>real_of_int y / 100\<rfloor>;
          B = 2 - A + \<lfloor>real_of_int A / 4\<rfloor>
      in of_int \<lfloor>365.25 * real_of_int (y + 4716)\<rfloor>
         + of_int \<lfloor>30.6001 * real_of_int (m + 1)\<rfloor>
         + real day + of_int B - 1524.5 + timeOfDay / 24.0)"

record solar_position =
  sp_declination :: real
  sp_equationOfTime :: real
  sp_n :: real

definition calculateSolarPosition :: "real \<Rightarrow> solar_position" where
  "calculateSolarPosition julianDate =
     (let n = julianDate - J2000_EPOCH;
          L = normalizeDeg (280.460 + 0.9856474 * n);
          g = normalizeDeg (357.528 + 0.9856003 * n);
          gRad = toRadians g;
          lambda = L + 1.915 * sin gRad + 0.020 * sin (2 * gRad);
          lambdaRad = toRadians lambda;
          epsilon = 23.439 - 0.0000004 * n;
          epsRad = toRadians epsilon;
          alphaRad = Math_atan2 (cos epsRad * sin lambdaRad) (cos lambdaRad);
          alpha = normalizeDeg (toDegrees alphaRad);
          deltaRad = arcsin (sin epsRad * sin lambdaRad);
          declination = toDegrees deltaRad;
          diff = L - alpha;
          diff = (if diff > 180 then diff - 360 else diff);
          diff = (if diff < - 180 then diff + 360 else diff);
          equationOfTime = 4 * diff
      in \<lparr>sp_declination = declination, sp_equationOfTime = equationOfTime, sp_n = n\<rparr>)"

definition calculateDaylightDurationPrecise :: "real \<Rightarrow> real \<Rightarrow> real \<Rightarrow> real" where
  "calculateDaylightDurationPrecise lat declination angleThreshold =
     (let safeLat = max (- 89.9) (min 89.9 lat);
          latRad = toRadians safeLat;
          decRad = toRadians declination;
          altRad = toRadians angleThreshold;
          numerator = sin altRad - sin latRad * sin decRad;
          denominator = cos latRad * cos decRad;
          cosOmega = numerator / denominator
      in if cosOmega \<le> - 1 then 24.0
         else if cosOmega \<ge> 1 then 0.0
         else (let omega = toDegrees (arccos cosOmega) in (2 * omega) / 15))"

definition getSunHours :: "real \<Rightarrow> real \<Rightarrow> real \<Rightarrow> real list" where
  "getSunHours lat declination angleThreshold =
     (let safeLat = max (- 89.9) (min 89.9 lat);
          latRad = toRadians safeLat;
          decRad = toRadians declination;
          altRad = toRadians angleThreshold;
          cosH = (sin altRad - sin latRad * sin decRad) / (cos latRad * cos decRad)
      in if cosH < - 1 then [0, 24]
         else if cosH > 1 then [12, 12]
         else (let H = toDegrees (arccos cosH);
                   hourOffset = H / 15
               in [12 - hourOffset, 12 + hourOffset]))"

section \<open>Configuration\<close>

definition TWILIGHT_OFFICIAL :: real where "TWILIGHT_OFFICIAL = - 0.833"
definition TWILIGHT_CIVIL :: real where "TWILIGHT_CIVIL = - 6.0"
definition TWILIGHT_NAUTICAL :: real where "TWILIGHT_NAUTICAL = - 12.0"
definition TWILIGHT_ASTRONOMICAL :: real where "TWILIGHT_ASTRONOMICAL = - 18.0"

definition earthOrbitRadius :: real where "earthOrbitRadius = 200"
definition moonOrbitRadius :: real where "moonOrbitRadius = 60"
definition earthRadius :: real where "earthRadius = 12"
definition daysInYear :: real where "daysInYear = 365.25"

section \<open>The engine\<close>

record point =
  px :: real
  py :: real

record positions_t =
  sun :: point
  earth :: point
  moon :: point

record angles_t =
  toSun :: real
  toMoon :: real
  sunDegrees :: real
  moonDegrees :: real

record phase_t =
  phase_value :: real
  phase_name :: string

record tides_t =
  tide_rx :: real
  tide_ry :: real
  tide_type :: string
  tide_alignment :: real

record orbitalData_t =
  positions :: positions_t
  angles :: angles_t
  phase :: phase_t
  tides :: tides_t
  userRotation :: real
  localTideStatus :: string

record solarData_t =
  dayLength :: real
  civil :: real
  nautical :: real
  astronomical :: real
  sunrise :: real
  sunset :: real
  solarNoon :: real
  equationOfTime :: real
  daysSinceEpoch :: real
  noonElevation :: real
  declination :: real
  isPolarNight :: bool
  isMidnightSun :: bool

record engineData_t =
  solarData :: solarData_t
  orbitalData :: orbitalData_t

record annual_entry =
  day :: nat
  length' :: real

record cosmic_t =
  engine :: engineData_t
  annual :: "annual_entry list"

definition getPhaseName :: "real \<Rightarrow> string" where
  "getPhaseName p =
     (if p < 0.03 \<or> p > 0.97 then ''New Moon''
      else if p < 0.22 then ''Waxing Crescent''
      else if p < 0.28 then ''First Quarter''
      else if p < 0.47 then ''Waxing Gibbous''
      else if p < 0.53 then ''Full Moon''
      else if p < 0.72 then ''Waning Gibbous''
      else if p < 0.78 then ''Last Quarter''
      else ''Waning Crescent'')"

text \<open>The label of the phase widget (\<^verbatim>\<open>PhaseVisual.jsx\<close>), with boundaries of its own.\<close>

definition getPhaseLabel :: "real \<Rightarrow> string" where
  "getPhaseLabel ph =
     (if ph \<le> 0.02 \<or> ph \<ge> 0.98 then ''New Moon''
      else if ph < 0.24 then ''Waxing Crescent''
      else if ph < 0.26 then ''First Quarter''
      else if ph < 0.48 then ''Waxing Gibbous''
      else if ph \<le> 0.52 then ''Full Moon''
      else if ph < 0.74 then ''Waning Gibbous''
      else if ph < 0.76 then ''Last Quarter''
      else ''Waning Crescent'')"

text \<open>
  The orbital block of the body of \<^verbatim>\<open>engineData\<close> (``Orbital Physics'' to
  \<^verbatim>\<open>getPhaseName\<close>, and the \<^verbatim>\<open>orbitalData\<close> object it returns) reads \<^verbatim>\<open>n\<close>,
  \<^verbatim>\<open>timeOfDay\<close> and \<^verbatim>\<open>longitude\<close> only; it is a definition of its own, line by line.
\<close>

definition orbitalState :: "real \<Rightarrow> real \<Rightarrow> real \<Rightarrow> orbitalData_t" where
  "orbitalState n timeOfDay longitude =
     (let earthTheta = (n / daysInYear) * 2 * pi;
          earthPos = \<lparr>px = earthOrbitRadius * cos earthTheta,
                      py = earthOrbitRadius * sin earthTheta\<rparr>;
          meanElongationDeg = 297.85 + (12.19075 * n);
          angleToSun = earthTheta + pi;
          moonTheta = angleToSun + toRadians meanElongationDeg;
          moonPos = \<lparr>px = px earthPos + moonOrbitRadius * cos moonTheta,
                     py = py earthPos + moonOrbitRadius * sin moonTheta\<rparr>;
          angleToMoon = Math_atan2 (py moonPos - py earthPos) (px moonPos - px earthPos);
          phaseRad = js_rem (angleToMoon - angleToSun) (2 * pi);
          phaseRad = (if phaseRad < 0 then phaseRad + 2 * pi else phaseRad);
          phase0to1 = phaseRad / (2 * pi);
          alignmentFactor = cos (2 * (angleToMoon - angleToSun));
          tideRx = earthRadius + 4 + 6 + (3 * alignmentFactor);
          userRotation = ((timeOfDay - 12) * 15) + longitude;
          moonPhaseAngleDeg = phase0to1 * 360;
          diff = js_rem (userRotation - moonPhaseAngleDeg) 360;
          diff = (if diff < 0 then diff + 360 else diff);
          isHighTide = (diff \<le> 45 \<or> diff \<ge> 315 \<or> (diff \<ge> 135 \<and> diff \<le> 225))
      in \<lparr>positions = \<lparr>sun = \<lparr>px = 0, py = 0\<rparr>, earth = earthPos, moon = moonPos\<rparr>,
          angles = \<lparr>toSun = angleToSun,
                    toMoon = angleToMoon,
                    sunDegrees = toDegrees (Math_atan2 (sin angleToSun) (cos angleToSun)),
                    moonDegrees = toDegrees angleToMoon\<rparr>,
          phase = \<lparr>phase_value = phase0to1, phase_name = getPhaseName phase0to1\<rparr>,
          tides = \<lparr>tide_rx = tideRx,
                   tide_ry = earthRadius + 4,
                   tide_type = (if alignmentFactor > 0.8 then ''Spring Tide''
                                else (if alignmentFactor < - 0.8 then ''Neap Tide''
                                      else ''Transitional'')),
                   tide_alignment = alignmentFactor\<rparr>,
          userRotation = userRotation,
          localTideStatus = (if isHighTide then ''High Tide'' else ''Low Tide'')\<rparr>)"

text \<open>
  \<^verbatim>\<open>engineData\<close>. Each arithmetic operation in the solar noon, the sunrise and the sunset
  is followed by its rounding \<open>fl\<close>; 12, 15, 60 and 2 are doubles.
\<close>

definition engineData :: "date \<Rightarrow> real \<Rightarrow> real \<Rightarrow> real \<Rightarrow> bool \<Rightarrow> engineData_t" where
  "engineData safeDate timeOfDay latitude longitude useAnalemma =
     (let JD = getJulianDate safeDate timeOfDay;
          sp = calculateSolarPosition JD;
          declination = sp_declination sp;
          equationOfTime = sp_equationOfTime sp;
          n = sp_n sp;
          eotCorrection = (if useAnalemma then equationOfTime else 0);
          solarNoon = fl (fl (12 - fl (longitude / 15)) - fl (eotCorrection / 60));
          dayLen = calculateDaylightDurationPrecise latitude declination TWILIGHT_OFFICIAL
      in \<lparr>solarData =
            \<lparr>dayLength = dayLen,
             civil = calculateDaylightDurationPrecise latitude declination TWILIGHT_CIVIL,
             nautical = calculateDaylightDurationPrecise latitude declination TWILIGHT_NAUTICAL,
             astronomical =
               calculateDaylightDurationPrecise latitude declination TWILIGHT_ASTRONOMICAL,
             sunrise = fl (solarNoon - fl (dayLen / 2)),
             sunset = fl (solarNoon + fl (dayLen / 2)),
             solarNoon = solarNoon,
             equationOfTime = eotCorrection,
             daysSinceEpoch = n,
             noonElevation = 90 - \<bar>latitude - declination\<bar>,
             declination = declination,
             isPolarNight = (dayLen \<le> 0),
             isMidnightSun = (dayLen \<ge> 24)\<rparr>,
          orbitalData = orbitalState n timeOfDay longitude\<rparr>)"

text \<open>The loop of \<^verbatim>\<open>annualData\<close>: \<^verbatim>\<open>for (let i = 0; i <= 365; i++) data.push(...)\<close>.\<close>

function annual_loop :: "real \<Rightarrow> int \<Rightarrow> nat \<Rightarrow> annual_entry list \<Rightarrow> annual_entry list" where
  "annual_loop latitude year i data =
     (if i \<le> 365
      then (let jd = getJulianDate (new_Date year 0 (i + 1)) 12;
                declination = sp_declination (calculateSolarPosition jd)
            in annual_loop latitude year (i + 1)
                 (data @ [\<lparr>day = i + 1,
                           length' = toFixed2 (calculateDaylightDurationPrecise
                                                 latitude declination TWILIGHT_OFFICIAL)\<rparr>]))
      else data)"
  by pat_completeness auto
termination
  by (relation "measure (\<lambda>(latitude, year, i, data). 366 - i)") auto

declare annual_loop.simps [simp del]

definition annualData :: "real \<Rightarrow> int \<Rightarrow> annual_entry list" where
  "annualData latitude year = annual_loop latitude year 0 []"

text \<open>
  \<^verbatim>\<open>useCosmicEngine\<close>. A date that is absent or invalid is \<open>None\<close> and is replaced by the
  current date, which the model takes as the argument \<open>now\<close>.
\<close>

definition useCosmicEngine ::
  "date \<Rightarrow> date option \<Rightarrow> real \<Rightarrow> real \<Rightarrow> real \<Rightarrow> bool \<Rightarrow> cosmic_t" where
  "useCosmicEngine now dt timeOfDay latitude longitude useAnalemma =
     (let safeDate = (case dt of Some d \<Rightarrow> d | None \<Rightarrow> now);
          year = getFullYear safeDate
      in \<lparr>engine = engineData safeDate timeOfDay latitude longitude useAnalemma,
          annual = annualData latitude year\<rparr>)"

text \<open>
  The quantity cos(omega) of the sunrise equation, which both
  \<^verbatim>\<open>calculateDaylightDurationPrecise\<close> (as \<^verbatim>\<open>cosOmega\<close>) and \<^verbatim>\<open>getSunHours\<close> (as
  \<^verbatim>\<open>cosH\<close>) compute from the clamped latitude. The theorems are stated with it.
\<close>

definition sunrise_cos :: "real \<Rightarrow> real \<Rightarrow> real \<Rightarrow> real" where
  "sunrise_cos lat dec angleThreshold =
     (sin (toRadians angleThreshold)
        - sin (toRadians (max (- 89.9) (min 89.9 lat))) * sin (toRadians dec))
     / (cos (toRadians (max (- 89.9) (min 89.9 lat))) * cos (toRadians dec))"

section \<open>Julian Date\<close>

lemma new_Date_2000: "new_Date 2000 0 1 = \<lparr>getFullYear = 2000, getMonth = 0, getDate = 1\<rparr>"
  by (simp add: new_Date_def makeDay.simps daysInMonth_def)

text \<open>
  C1. The Julian Date of the civil date 2000-01-01 at decimal UTC hour 12.0 is exactly
  2451545.0, the J2000 epoch: January counts as month 13 of 1999, so that A = 19,
  B = -13, and the two floors are 2452653 and 428.
\<close>

theorem julianDate_J2000:
  "getJulianDate (new_Date 2000 0 1) 12.0 = 2451545.0"
  by (simp add: new_Date_def makeDay.simps daysInMonth_def getJulianDate_def)

section \<open>Day length\<close>

lemma dayLength_cases:
  "calculateDaylightDurationPrecise lat dec thr =
     (if sunrise_cos lat dec thr \<le> - 1 then 24
      else if 1 \<le> sunrise_cos lat dec thr then 0
      else 2 * toDegrees (arccos (sunrise_cos lat dec thr)) / 15)"
  by (simp add: calculateDaylightDurationPrecise_def sunrise_cos_def Let_def)

lemma getSunHours_cases:
  "getSunHours lat dec thr =
     (if sunrise_cos lat dec thr < - 1 then [0, 24]
      else if 1 < sunrise_cos lat dec thr then [12, 12]
      else [12 - toDegrees (arccos (sunrise_cos lat dec thr)) / 15,
            12 + toDegrees (arccos (sunrise_cos lat dec thr)) / 15])"
  by (simp add: getSunHours_def sunrise_cos_def Let_def)

lemma arc_hours_bounds:
  assumes "- 1 < c" "c < 1"
  shows "0 < 2 * toDegrees (arccos c) / 15" "2 * toDegrees (arccos c) / 15 < 24"
proof -
  from assms have b: "0 < arccos c" "arccos c < pi"
    using arccos_lt_bounded [of c] by simp_all
  have "toDegrees (arccos c) = arccos c * 180 / pi"
    by (simp add: toDegrees_def RAD2DEG_def)
  moreover have "0 < arccos c * 180 / pi" using b by simp
  moreover have "arccos c * 180 / pi < 180" using b by (simp add: field_simps)
  ultimately show "0 < 2 * toDegrees (arccos c) / 15" "2 * toDegrees (arccos c) / 15 < 24"
    by simp_all
qed

lemma toRadians_simps:
  "toRadians 0 = 0" "toRadians 90 = pi / 2" "toRadians (- 90) = - (pi / 2)"
  by (simp_all add: toRadians_def DEG2RAD_def)

lemma sunrise_cos_equator:
  "sunrise_cos 0 0 thr = sin (toRadians thr)"
  by (simp add: sunrise_cos_def toRadians_simps)

lemma arccos_sin:
  assumes "- (pi / 2) \<le> x" "x \<le> pi / 2"
  shows "arccos (sin x) = pi / 2 - x"
proof -
  have "sin x = cos (pi / 2 - x)" by (simp add: cos_diff)
  then show ?thesis using assms by (simp add: arccos_cos)
qed

text \<open>
  C2. For every latitude and threshold, and every declination whose cosine does not vanish,
  the day length is between 0 and 24: it is 24 when cos(omega) is at most -1, 0 when
  cos(omega) is at least 1, and twice the hour angle in degrees over 15 in between.
\<close>

theorem dayLength_range:
  assumes "cos (toRadians dec) \<noteq> 0"
  shows "0 \<le> calculateDaylightDurationPrecise lat dec thr
       \<and> calculateDaylightDurationPrecise lat dec thr \<le> 24
       \<and> (sunrise_cos lat dec thr \<le> - 1 \<longrightarrow>
            calculateDaylightDurationPrecise lat dec thr = 24)
       \<and> (sunrise_cos lat dec thr \<ge> 1 \<longrightarrow>
            calculateDaylightDurationPrecise lat dec thr = 0)
       \<and> (- 1 < sunrise_cos lat dec thr \<and> sunrise_cos lat dec thr < 1 \<longrightarrow>
            calculateDaylightDurationPrecise lat dec thr
              = 2 * toDegrees (arccos (sunrise_cos lat dec thr)) / 15)"
  using arc_hours_bounds [of "sunrise_cos lat dec thr"]
  by (auto simp: dayLength_cases)

theorem dayLength_range_witness:
  "cos (toRadians 0) \<noteq> 0
   \<and> sunrise_cos 0 0 (- 90) \<le> - 1 \<and> calculateDaylightDurationPrecise 0 0 (- 90) = 24
   \<and> sunrise_cos 0 0 90 \<ge> 1 \<and> calculateDaylightDurationPrecise 0 0 90 = 0
   \<and> - 1 < sunrise_cos 0 0 0 \<and> sunrise_cos 0 0 0 < 1
   \<and> calculateDaylightDurationPrecise 0 0 0 = 12"
  using dayLength_range [of 0 0 "- 90"] dayLength_range [of 0 0 90] dayLength_range [of 0 0 0]
  by (simp add: sunrise_cos_equator toRadians_simps toDegrees_def RAD2DEG_def)

text \<open>
  C3. The two queries agree on the polar classification, for every latitude and threshold
  and every declination whose cosine does not vanish: the day length is 24 exactly when
  the window of \<^verbatim>\<open>getSunHours\<close> is [0, 24], and it is 0 exactly when the window is
  [12, 12]. At cos(omega) = -1 and cos(omega) = 1, where only the day length takes its
  polar branch, the window comes out of the arc cosine with the same value.
\<close>

theorem polar_classification_agrees:
  assumes "cos (toRadians dec) \<noteq> 0"
  shows "(calculateDaylightDurationPrecise lat dec thr = 24
            \<longleftrightarrow> getSunHours lat dec thr = [0, 24])
       \<and> (calculateDaylightDurationPrecise lat dec thr = 0
            \<longleftrightarrow> getSunHours lat dec thr = [12, 12])"
proof -
  let ?c = "sunrise_cos lat dec thr"
  consider "?c < - 1" | "?c = - 1" | "- 1 < ?c \<and> ?c < 1" | "?c = 1" | "1 < ?c"
    by linarith
  then show ?thesis
  proof cases
    case 3
    then show ?thesis
      using arc_hours_bounds [of ?c] by (simp add: dayLength_cases getSunHours_cases)
  qed (simp_all add: dayLength_cases getSunHours_cases toDegrees_def RAD2DEG_def)
qed

theorem polar_classification_agrees_witness:
  "cos (toRadians 0) \<noteq> 0
   \<and> calculateDaylightDurationPrecise 0 0 (- 90) = 24 \<and> getSunHours 0 0 (- 90) = [0, 24]
   \<and> calculateDaylightDurationPrecise 0 0 90 = 0 \<and> getSunHours 0 0 90 = [12, 12]"
  using polar_classification_agrees [of 0 0 "- 90"] polar_classification_agrees [of 0 0 90]
  by (simp add: dayLength_cases sunrise_cos_equator toRadians_simps)

text \<open>
  C8. At the equator, with declination 0 and the official threshold of -0.833 degrees, the
  day length is approximately 12 hours: it is 12 + 833/7500 hours (12 h 6 min 40 s), the
  threshold below the horizon adding 2 * 0.833 / 15 hours to the 12 hours of threshold 0,
  which is within an eighth of an hour of 12.
\<close>

theorem dayLength_equator_official:
  "calculateDaylightDurationPrecise 0 0 (- 0.833) = 12 + 833 / 7500
   \<and> \<bar>calculateDaylightDurationPrecise 0 0 (- 0.833) - 12\<bar> < 1 / 8"
proof -
  let ?x = "toRadians (- 0.833)"
  have x: "?x = - (833 * pi / 180000)" by (simp add: toRadians_def DEG2RAD_def)
  have r: "- (pi / 2) < ?x" "?x < 0" unfolding x using pi_gt_zero by linarith+
  have "sin (- (pi / 2)) < sin ?x"
    using r by (intro sin_monotone_2pi) simp_all
  then have lo: "- 1 < sin ?x" by simp
  have "sin ?x < sin 0"
    using r by (intro sin_monotone_2pi) simp_all
  then have hi: "sin ?x < 1" by simp
  have ac: "arccos (sin ?x) = pi / 2 - ?x"
    using r by (intro arccos_sin) simp_all
  have "calculateDaylightDurationPrecise 0 0 (- 0.833) = 2 * toDegrees (pi / 2 - ?x) / 15"
    using lo hi ac by (simp add: dayLength_cases sunrise_cos_equator)
  also have "\<dots> = 12 + 833 / 7500"
    by (simp add: toRadians_def DEG2RAD_def toDegrees_def RAD2DEG_def field_simps)
  finally show ?thesis by simp
qed

section \<open>Phase names\<close>

text \<open>
  The claim C7 as stated, with Full Moon for every phase from 0.47 to 0.53 inclusive, fails
  at the upper boundary: the phase 0.53 is already Waning Gibbous.
\<close>

theorem getPhaseName_Full_boundary:
  "(0.47::real) \<le> 0.53 \<and> (0.53::real) \<le> 0.53
   \<and> getPhaseName 0.53 = ''Waning Gibbous'' \<and> getPhaseName 0.53 \<noteq> ''Full Moon''"
  by (simp add: getPhaseName_def)

text \<open>The label of the phase widget has narrower bands: it is not the engine's bucketing.\<close>

lemma getPhaseLabel_differs:
  "getPhaseName 0.025 = ''New Moon'' \<and> getPhaseLabel 0.025 = ''Waxing Crescent''"
  by (simp add: getPhaseName_def getPhaseLabel_def)

text \<open>
  C7, amended. Every phase falls into exactly one of eight named buckets with fixed
  boundaries. New Moon is the open band of 0.03 on either side of 0 (that is, of 1); First
  Quarter, Full Moon and Last Quarter are the bands from 0.03 below to 0.03 above 0.25, 0.5
  and 0.75, with the lower boundary included and the upper one excluded; the crescent and
  gibbous buckets fill the gaps.
\<close>

theorem getPhaseName_buckets:
  "getPhaseName p \<in> {''New Moon'', ''Waxing Crescent'', ''First Quarter'', ''Waxing Gibbous'',
                      ''Full Moon'', ''Waning Gibbous'', ''Last Quarter'', ''Waning Crescent''}
   \<and> (getPhaseName p = ''New Moon'' \<longleftrightarrow> p < 0.03 \<or> p > 0.97)
   \<and> (getPhaseName p = ''Waxing Crescent'' \<longleftrightarrow> 0.03 \<le> p \<and> p < 0.22)
   \<and> (getPhaseName p = ''First Quarter'' \<longleftrightarrow> 0.25 - 0.03 \<le> p \<and> p < 0.25 + 0.03)
   \<and> (getPhaseName p = ''Waxing Gibbous'' \<longleftrightarrow> 0.28 \<le> p \<and> p < 0.47)
   \<and> (getPhaseName p = ''Full Moon'' \<longleftrightarrow> 0.5 - 0.03 \<le> p \<and> p < 0.5 + 0.03)
   \<and> (getPhaseName p = ''Waning Gibbous'' \<longleftrightarrow> 0.53 \<le> p \<and> p < 0.72)
   \<and> (getPhaseName p = ''Last Quarter'' \<longleftrightarrow> 0.75 - 0.03 \<le> p \<and> p < 0.75 + 0.03)
   \<and> (getPhaseName p = ''Waning Crescent'' \<longleftrightarrow> 0.78 \<le> p \<and> p \<le> 0.97)"
  unfolding getPhaseName_def by (simp; linarith)

section \<open>Formatting a time of day\<close>

lemma js_rem_nonneg:
  assumes "0 \<le> a" "0 < b"
  shows "0 \<le> js_rem a b" "js_rem a b < b"
proof -
  have q: "0 \<le> a / b" using assms by simp
  have e: "js_rem a b = b * frac (a / b)"
    using q assms by (simp add: js_rem_def js_trunc_def frac_def field_simps)
  show "0 \<le> js_rem a b" using assms by (simp add: e)
  have "b * frac (a / b) < b * 1"
    using assms frac_lt_1 [of "a / b"] by (intro mult_strict_left_mono) simp_all
  then show "js_rem a b < b" by (simp add: e)
qed

lemma js_rem_neg:
  assumes "a < 0" "0 < b"
  shows "- b < js_rem a b" "js_rem a b \<le> 0"
proof -
  have q: "\<not> 0 \<le> a / b" using assms by (simp add: divide_less_0_iff not_le)
  have e: "js_rem a b = a - b * of_int \<lceil>a / b\<rceil>"
    using q by (simp add: js_rem_def js_trunc_def)
  have c1: "a / b \<le> of_int \<lceil>a / b\<rceil>" by (rule le_of_int_ceiling)
  have c2: "of_int \<lceil>a / b\<rceil> < a / b + 1" using ceiling_correct [of "a / b"] by linarith
  have "b * (a / b) \<le> b * of_int \<lceil>a / b\<rceil>"
    using assms c1 by (intro mult_left_mono) simp_all
  then show "js_rem a b \<le> 0" using assms by (simp add: e)
  have "b * of_int \<lceil>a / b\<rceil> < b * (a / b + 1)"
    using assms c2 by (intro mult_strict_left_mono) simp_all
  then show "- b < js_rem a b" using assms by (simp add: e algebra_simps)
qed

lemma normalized_range:
  "0 \<le> js_rem (js_rem dh 24 + 24) 24" "js_rem (js_rem dh 24 + 24) 24 < 24"
proof -
  have "- 24 < js_rem dh 24"
    using js_rem_neg [of dh 24] js_rem_nonneg [of dh 24] by (cases "dh < 0") simp_all
  then have "0 \<le> js_rem dh 24 + 24" by simp
  then show "0 \<le> js_rem (js_rem dh 24 + 24) 24" "js_rem (js_rem dh 24 + 24) 24 < 24"
    using js_rem_nonneg [of "js_rem dh 24 + 24" 24] by simp_all
qed


lemma digit_2: "k < 10 \<Longrightarrow> (''0123456789'' ! k = CHR ''2'') = (k = 2)"
proof -
  assume "k < 10"
  then have "k = 0 \<or> k = 1 \<or> k = 2 \<or> k = 3 \<or> k = 4
    \<or> k = 5 \<or> k = 6 \<or> k = 7 \<or> k = 8 \<or> k = 9"
    by arith
  then show ?thesis by (elim disjE) simp_all
qed

lemma digit_4: "k < 10 \<Longrightarrow> (''0123456789'' ! k = CHR ''4'') = (k = 4)"
proof -
  assume "k < 10"
  then have "k = 0 \<or> k = 1 \<or> k = 2 \<or> k = 3 \<or> k = 4
    \<or> k = 5 \<or> k = 6 \<or> k = 7 \<or> k = 8 \<or> k = 9"
    by arith
  then show ?thesis by (elim disjE) simp_all
qed

lemma pad2:
  assumes "0 \<le> v" "v \<le> 99"
  shows "padStart (toString v) 2 CHR ''0''
         = [''0123456789'' ! (nat v div 10), ''0123456789'' ! (nat v mod 10)]"
proof (cases "nat v < 10")
  case True
  then have "string_of_nat (nat v) = [''0123456789'' ! nat v]"
    by (subst string_of_nat.simps) simp
  then show ?thesis using True assms by (simp add: padStart_def toString_def)
next
  case False
  then have d: "nat v div 10 < 10" using assms by linarith
  have "string_of_nat (nat v)
        = string_of_nat (nat v div 10) @ [''0123456789'' ! (nat v mod 10)]"
    using False by (subst string_of_nat.simps) simp
  moreover have "string_of_nat (nat v div 10) = [''0123456789'' ! (nat v div 10)]"
    using d by (subst string_of_nat.simps) simp
  ultimately show ?thesis using assms by (simp add: padStart_def toString_def)
qed

lemma hms_not_24:
  assumes "0 \<le> H" "H \<le> 23" "0 \<le> M" "M \<le> 59" "0 \<le> S" "S \<le> 59"
  shows "join (map (\<lambda>v. padStart (toString v) 2 CHR ''0'') [H, M, S]) '':'' \<noteq> ''24:00:00''"
proof
  assume "join (map (\<lambda>v. padStart (toString v) 2 CHR ''0'') [H, M, S]) '':'' = ''24:00:00''"
  then have "''0123456789'' ! (nat H div 10) = CHR ''2''" "''0123456789'' ! (nat H mod 10) = CHR ''4''"
    using assms by (simp_all add: pad2)
  moreover have "nat H div 10 < 10" "nat H mod 10 < 10" using assms by linarith+
  ultimately have "nat H div 10 = 2" "nat H mod 10 = 4"
    by (simp_all add: digit_2 digit_4)
  moreover have "nat H = nat H div 10 * 10 + nat H mod 10" by simp
  ultimately show False using assms by linarith
qed


lemma carry_case:
  fixes s m h :: int
  shows "(case (if s = 60 then (0, m + 1) else (s, m)) of
            (seconds, minutes) \<Rightarrow>
              (case (if minutes = 60 then (0, h + 1) else (minutes, h)) of
                 (minutes, hours) \<Rightarrow> F hours minutes seconds))
         = F (if (if s = 60 then m + 1 else m) = 60 then h + 1 else h)
             (if (if s = 60 then m + 1 else m) = 60 then 0 else (if s = 60 then m + 1 else m))
             (if s = 60 then 0 else s)"
  by simp

lemma formatTime_Some_form:
  "\<exists>H M S. 0 \<le> H \<and> H \<le> 23 \<and> 0 \<le> M \<and> M \<le> 59 \<and> 0 \<le> S \<and> S \<le> 59
     \<and> formatTime (Some dh) = join (map (\<lambda>v. padStart (toString v) 2 CHR ''0'') [H, M, S]) '':''"
proof -
  define nz where "nz = js_rem (js_rem dh 24 + 24) 24"
  define h where "h = \<lfloor>nz\<rfloor>"
  define m where "m = \<lfloor>(nz - of_int h) * 60\<rfloor>"
  define s where "s = Math_round (((nz - of_int h) * 60 - of_int m) * 60)"
  have nz: "0 \<le> nz" "nz < 24"
    using normalized_range [of dh] by (simp_all add: nz_def)
  have h: "0 \<le> h" "h \<le> 23"
    using nz by (simp_all add: h_def floor_less_iff [of nz 24, simplified] flip: less_Suc_eq_le)
  have f: "0 \<le> nz - of_int h" "nz - of_int h < 1"
    unfolding h_def by linarith+
  have m: "0 \<le> m" "m \<le> 59"
  proof -
    show "0 \<le> m" using f by (simp add: m_def)
    have "(nz - of_int h) * 60 < 60" using f by simp
    then have "m < 60" unfolding m_def by (simp add: floor_less_iff)
    then show "m \<le> 59" by simp
  qed
  have g: "0 \<le> (nz - of_int h) * 60 - of_int m" "(nz - of_int h) * 60 - of_int m < 1"
    unfolding m_def by linarith+
  have s: "0 \<le> s" "s \<le> 60"
  proof -
    have "0 \<le> ((nz - of_int h) * 60 - of_int m) * 60 + 1 / 2" using g by simp
    then show "0 \<le> s" by (simp add: s_def Math_round_def)
    have "((nz - of_int h) * 60 - of_int m) * 60 + 1 / 2 < 61" using g by simp
    then have "s < 61" unfolding s_def Math_round_def by (simp add: floor_less_iff)
    then show "s \<le> 60" by simp
  qed
  define M1 where "M1 = (if s = 60 then m + 1 else m)"
  define H1 where "H1 = (if M1 = 60 then h + 1 else h)"
  define S where "S = (if s = 60 then 0 else s)"
  define M where "M = (if M1 = 60 then 0 else M1)"
  define H where "H = (if H1 = 24 then 0 else H1)"
  have eq: "formatTime (Some dh)
            = join (map (\<lambda>v. padStart (toString v) 2 CHR ''0'') [H, M, S]) '':''"
    unfolding H_def M_def S_def H1_def M1_def s_def m_def h_def nz_def
    by (simp only: formatTime_def option.case Let_def carry_case)
  have "0 \<le> S" "S \<le> 59" using s by (simp_all add: S_def)
  moreover have M1: "0 \<le> M1" "M1 \<le> 60" using m by (simp_all add: M1_def)
  then have "0 \<le> M" "M \<le> 59" by (simp_all add: M_def)
  moreover have "0 \<le> H1" "H1 \<le> 24" using h by (simp_all add: H1_def)
  then have "0 \<le> H" "H \<le> 23" by (simp_all add: H_def)
  ultimately show ?thesis using eq by blast
qed

lemma formatTime_carry:
  assumes "24 - 1 / 7200 \<le> js_rem (js_rem dh 24 + 24) 24"
  shows "formatTime (Some dh) = ''00:00:00''"
proof -
  define nz where "nz = js_rem (js_rem dh 24 + 24) 24"
  have nz: "24 - 1 / 7200 \<le> nz" "nz < 24"
    using assms normalized_range [of dh] by (simp_all add: nz_def)
  have h: "\<lfloor>nz\<rfloor> = 23" using nz by (intro floor_unique) simp_all
  have m: "\<lfloor>(nz - of_int (23::int)) * 60\<rfloor> = 59"
    using nz by (intro floor_unique) simp_all
  have s: "Math_round (((nz - of_int (23::int)) * 60 - of_int (59::int)) * 60) = 60"
    unfolding Math_round_def using nz by (intro floor_unique) simp_all
  have z: "padStart (toString 0) 2 CHR ''0'' = ''00''"
    by (simp add: pad2)
  have "formatTime (Some dh)
        = join (map (\<lambda>v. padStart (toString v) 2 CHR ''0'') [0, 0, 0]) '':''"
    unfolding formatTime_def option.case Let_def nz_def [symmetric]
    by (simp only: h m s) simp
  then show ?thesis by (simp add: z)
qed

text \<open>
  C9. \<^verbatim>\<open>formatTime\<close> never returns the string 24:00:00, for any number and for \<^verbatim>\<open>NaN\<close>
  or \<^verbatim>\<open>null\<close>: the hours it prints are from 0 to 23. A time that the double modulo
  reduces into the last half second before 24 (23.9999 is one) has its seconds rounded up
  to 60, the carry runs through the minutes and the hours, the hour 24 wraps to 0, and the
  result is 00:00:00.
\<close>

theorem formatTime_never_24:
  "formatTime x \<noteq> ''24:00:00''
   \<and> (24 - 1 / 7200 \<le> js_rem (js_rem dh 24 + 24) 24 \<longrightarrow>
        formatTime (Some dh) = ''00:00:00'')"
proof -
  have "formatTime x \<noteq> ''24:00:00''"
  proof (cases x)
    case None
    then show ?thesis by (simp add: formatTime_def)
  next
    case (Some v)
    obtain H M S where b: "0 \<le> H" "H \<le> 23" "0 \<le> M" "M \<le> 59" "0 \<le> S" "S \<le> 59"
      and e: "formatTime (Some v)
              = join (map (\<lambda>v. padStart (toString v) 2 CHR ''0'') [H, M, S]) '':''"
      using formatTime_Some_form [of v] by blast
    show ?thesis unfolding Some e using b by (rule hms_not_24)
  qed
  then show ?thesis using formatTime_carry by blast
qed

theorem formatTime_never_24_witness:
  "24 - 1 / 7200 \<le> js_rem (js_rem 23.9999 24 + 24) 24
   \<and> formatTime (Some 23.9999) = ''00:00:00''
   \<and> formatTime (Some 23.9999) \<noteq> ''24:00:00''"
proof -
  have "js_rem (js_rem 23.9999 24 + 24) 24 = 23.9999"
    by (simp add: js_rem_def js_trunc_def)
  then have "24 - 1 / 7200 \<le> js_rem (js_rem 23.9999 24 + 24) 24" by simp
  then show ?thesis
    using formatTime_never_24 [of "Some 23.9999" "23.9999"] by blast
qed

section \<open>Lunar phase\<close>

lemma arctan_tan_cos:
  assumes "cos t \<noteq> 0"
  shows "cos (arctan (sin t / cos t)) = \<bar>cos t\<bar>"
    and "sin (arctan (sin t / cos t)) = sin t * \<bar>cos t\<bar> / cos t"
proof -
  have "1 + (sin t / cos t)\<^sup>2 = 1 / (cos t)\<^sup>2"
    using assms by (simp add: power_divide field_simps)
  then have s: "sqrt (1 + (sin t / cos t)\<^sup>2) = 1 / \<bar>cos t\<bar>"
    by (simp add: real_sqrt_divide)
  show "cos (arctan (sin t / cos t)) = \<bar>cos t\<bar>"
    by (simp add: cos_arctan s)
  show "sin (arctan (sin t / cos t)) = sin t * \<bar>cos t\<bar> / cos t"
    by (simp add: sin_arctan s)
qed

lemma atan2_sin_cos:
  assumes r: "0 < r"
  shows "sin (Math_atan2 (r * sin t) (r * cos t)) = sin t
       \<and> cos (Math_atan2 (r * sin t) (r * cos t)) = cos t"
proof -
  have q: "r * sin t / (r * cos t) = sin t / cos t" using r by simp
  consider "0 < cos t" | "cos t < 0" "0 \<le> sin t" | "cos t < 0" "sin t < 0"
    | "cos t = 0" "0 < sin t" | "cos t = 0" "sin t < 0" | "cos t = 0" "sin t = 0"
    by linarith
  then show ?thesis
  proof cases
    case 1
    then show ?thesis
      using r arctan_tan_cos [of t] by (simp add: Math_atan2_def q)
  next
    case 2
    then show ?thesis
      using r arctan_tan_cos [of t]
      by (simp add: Math_atan2_def q zero_less_mult_iff mult_less_0_iff zero_le_mult_iff)
  next
    case 3
    then show ?thesis
      using r arctan_tan_cos [of t]
      by (simp add: Math_atan2_def q zero_less_mult_iff mult_less_0_iff zero_le_mult_iff
          sin_diff cos_diff not_le)
  next
    case 4
    have "(sin t)\<^sup>2 = 1" using sin_cos_squared_add [of t] 4 by simp
    then have "sin t = 1" using 4 by (simp add: power2_eq_1_iff)
    then show ?thesis using r 4 by (simp add: Math_atan2_def)
  next
    case 5
    have "(sin t)\<^sup>2 = 1" using sin_cos_squared_add [of t] 5 by simp
    then have "sin t = - 1" using 5 by (simp add: power2_eq_1_iff)
    then show ?thesis using r 5 by (simp add: Math_atan2_def)
  next
    case 6
    then show ?thesis using sin_cos_squared_add [of t] by simp
  qed
qed

lemma atan2_polar:
  assumes "0 < r"
  shows "\<exists>k::int. Math_atan2 (r * sin t) (r * cos t) = t + 2 * pi * of_int k"
  using atan2_sin_cos [OF assms, of t] by (simp add: sin_cos_eq_iff)


lemma orbital_elongation:
  "\<exists>k::int. toMoon (angles (orbitalState n tod lon)) - toSun (angles (orbitalState n tod lon))
     = toRadians (297.85 + 12.19075 * n) + 2 * pi * of_int k"
proof -
  let ?s = "n / daysInYear * 2 * pi + pi"
  let ?m = "?s + toRadians (297.85 + 12.19075 * n)"
  obtain k :: int where
    "Math_atan2 (moonOrbitRadius * sin ?m) (moonOrbitRadius * cos ?m) = ?m + 2 * pi * of_int k"
    using atan2_polar [of moonOrbitRadius ?m] by (auto simp: moonOrbitRadius_def)
  then have "toMoon (angles (orbitalState n tod lon)) - toSun (angles (orbitalState n tod lon))
     = toRadians (297.85 + 12.19075 * n) + 2 * pi * of_int k"
    by (simp add: orbitalState_def Let_def)
  then show ?thesis ..
qed


lemma alignment_unfold:
  "tide_alignment (tides (orbitalState n tod lon))
   = cos (2 * (toMoon (angles (orbitalState n tod lon)) - toSun (angles (orbitalState n tod lon))))"
  by (simp add: orbitalState_def Let_def)


lemma alignment_eq:
  "tide_alignment (tides (orbitalState n tod lon)) = cos (2 * toRadians (297.85 + 12.19075 * n))"
proof -
  obtain k :: int where
    k: "toMoon (angles (orbitalState n tod lon)) - toSun (angles (orbitalState n tod lon))
        = toRadians (297.85 + 12.19075 * n) + 2 * pi * of_int k"
    using orbital_elongation by blast
  have "2 * (toRadians (297.85 + 12.19075 * n) + 2 * pi * of_int k)
        = 2 * toRadians (297.85 + 12.19075 * n) + 2 * pi * of_int (2 * k)"
    by simp
  then show ?thesis
    by (simp only: alignment_unfold k cos_add cos_int_2pin sin_int_2pin)
qed


lemma orbitalData_engine:
  "orbitalData (engine (useCosmicEngine now dt tod lat lon ua))
   = orbitalState (getJulianDate (case dt of Some d \<Rightarrow> d | None \<Rightarrow> now) tod - 2451545) tod lon"
  by (simp add: useCosmicEngine_def engineData_def calculateSolarPosition_def Let_def
      J2000_EPOCH_def)



section \<open>Tides\<close>

lemma tides_engine:
  "tide_alignment (tides (orbitalData (engine (useCosmicEngine now (Some d) tod lat lon ua))))
   = cos (2 * toRadians (297.85 + 12.19075 * (getJulianDate d tod - 2451545)))"
  by (simp add: orbitalData_engine alignment_eq)

lemma tide_type_engine:
  "tide_type (tides (orbitalData (engine (useCosmicEngine now dt tod lat lon ua))))
   = (let a = tide_alignment (tides (orbitalData (engine (useCosmicEngine now dt tod lat lon ua))))
      in if a > 0.8 then ''Spring Tide'' else if a < - 0.8 then ''Neap Tide'' else ''Transitional'')"
  by (simp add: orbitalData_engine orbitalState_def Let_def)

text \<open>
  C6. For every input of the engine, the tide classification is Spring Tide exactly when
  the alignment factor exceeds 0.8, Neap Tide exactly when it is below -0.8, and
  Transitional otherwise; an alignment of 1 (syzygy) is a Spring Tide and an alignment of 0
  (quadrature) is Transitional. Both alignments occur: the factor is the cosine of twice
  the mean elongation, which is 0 and 45 degrees at the two inputs of the witness.
\<close>

theorem tide_classification:
  "(tide_type (tides (orbitalData (engine (useCosmicEngine now dt tod lat lon ua)))) = ''Spring Tide''
      \<longleftrightarrow> tide_alignment (tides (orbitalData (engine (useCosmicEngine now dt tod lat lon ua)))) > 0.8)
   \<and> (tide_type (tides (orbitalData (engine (useCosmicEngine now dt tod lat lon ua)))) = ''Neap Tide''
      \<longleftrightarrow> tide_alignment (tides (orbitalData (engine (useCosmicEngine now dt tod lat lon ua)))) < - 0.8)
   \<and> (tide_type (tides (orbitalData (engine (useCosmicEngine now dt tod lat lon ua)))) = ''Transitional''
      \<longleftrightarrow> - 0.8 \<le> tide_alignment (tides (orbitalData (engine (useCosmicEngine now dt tod lat lon ua))))
        \<and> tide_alignment (tides (orbitalData (engine (useCosmicEngine now dt tod lat lon ua)))) \<le> 0.8)
   \<and> (tide_alignment (tides (orbitalData (engine (useCosmicEngine now dt tod lat lon ua)))) = 1
      \<longrightarrow> tide_type (tides (orbitalData (engine (useCosmicEngine now dt tod lat lon ua)))) = ''Spring Tide'')
   \<and> (tide_alignment (tides (orbitalData (engine (useCosmicEngine now dt tod lat lon ua)))) = 0
      \<longrightarrow> tide_type (tides (orbitalData (engine (useCosmicEngine now dt tod lat lon ua)))) = ''Transitional'')"
  unfolding tide_type_engine Let_def by (simp; linarith)

lemma getJulianDate_2000:
  "getJulianDate (new_Date 2000 0 1) tod = 2451544.5 + tod / 24"
  by (simp add: new_Date_def makeDay.simps daysInMonth_def getJulianDate_def)

theorem tide_classification_witness:
  "tide_alignment (tides (orbitalData (engine (useCosmicEngine (new_Date 2000 0 1)
       (Some (new_Date 2000 0 1)) (12 - 24 * 1191400 / 48763) 0 0 True)))) = 1
   \<and> tide_type (tides (orbitalData (engine (useCosmicEngine (new_Date 2000 0 1)
       (Some (new_Date 2000 0 1)) (12 - 24 * 1191400 / 48763) 0 0 True)))) = ''Spring Tide''
   \<and> tide_alignment (tides (orbitalData (engine (useCosmicEngine (new_Date 2000 0 1)
       (Some (new_Date 2000 0 1)) (12 - 24 * 1011400 / 48763) 0 0 True)))) = 0
   \<and> tide_type (tides (orbitalData (engine (useCosmicEngine (new_Date 2000 0 1)
       (Some (new_Date 2000 0 1)) (12 - 24 * 1011400 / 48763) 0 0 True)))) = ''Transitional''"
proof -
  have a1: "tide_alignment (tides (orbitalData (engine (useCosmicEngine (new_Date 2000 0 1)
       (Some (new_Date 2000 0 1)) (12 - 24 * 1191400 / 48763) 0 0 True)))) = 1"
    unfolding tides_engine getJulianDate_2000 by (simp add: toRadians_def)
  have a0: "tide_alignment (tides (orbitalData (engine (useCosmicEngine (new_Date 2000 0 1)
       (Some (new_Date 2000 0 1)) (12 - 24 * 1011400 / 48763) 0 0 True)))) = 0"
    unfolding tides_engine getJulianDate_2000 by (simp add: toRadians_def DEG2RAD_def)
  show ?thesis
    using a1 a0
      tide_classification [of "new_Date 2000 0 1" "Some (new_Date 2000 0 1)"
        "12 - 24 * 1191400 / 48763" 0 0 True]
      tide_classification [of "new_Date 2000 0 1" "Some (new_Date 2000 0 1)"
        "12 - 24 * 1011400 / 48763" 0 0 True]
    by blast
qed

section \<open>The annual series\<close>

lemma annual_loop_eq:
  "i \<le> 366 \<Longrightarrow>
   annual_loop lat year i data
   = data @ map (\<lambda>i. \<lparr>day = i + 1,
                       length' = toFixed2 (calculateDaylightDurationPrecise lat
                         (sp_declination (calculateSolarPosition
                            (getJulianDate (new_Date year 0 (i + 1)) 12)))
                         TWILIGHT_OFFICIAL)\<rparr>) [i..<366]"
proof (induction lat year i data rule: annual_loop.induct)
  case (1 latitude year i data)
  show ?case
  proof (cases "i \<le> 365")
    case True
    then have "[i..<366] = i # [i + 1..<366]" by (simp add: upt_conv_Cons)
    with True "1.IH" show ?thesis
      by (subst annual_loop.simps) (simp add: Let_def)
  next
    case False
    with "1.prems" have "i = 366" by simp
    then show ?thesis by (subst annual_loop.simps) simp
  qed
qed

text \<open>
  C5. For every latitude and year the annual series has exactly 366 entries, with the days
  1, 2, ..., 366 in this order; the length of day number d is the day length at the
  official threshold for the declination of the solar position at the Julian Date of
  \<^verbatim>\<open>new Date(year, 0, d)\<close> at hour 12, rounded to two decimal places.
\<close>

theorem annualData_series:
  "annualData lat year
     = map (\<lambda>i. \<lparr>day = i + 1,
                  length' = toFixed2 (calculateDaylightDurationPrecise lat
                    (sp_declination (calculateSolarPosition
                       (getJulianDate (new_Date year 0 (i + 1)) 12)))
                    TWILIGHT_OFFICIAL)\<rparr>) [0..<366]
   \<and> length (annualData lat year) = 366
   \<and> map day (annualData lat year) = [1..<367]"
proof -
  have e: "annualData lat year
     = map (\<lambda>i. \<lparr>day = i + 1,
                  length' = toFixed2 (calculateDaylightDurationPrecise lat
                    (sp_declination (calculateSolarPosition
                       (getJulianDate (new_Date year 0 (i + 1)) 12)))
                    TWILIGHT_OFFICIAL)\<rparr>) [0..<366]"
    by (simp add: annualData_def annual_loop_eq)
  have "map day (annualData lat year) = map Suc [0..<366]"
    unfolding e by (simp add: comp_def)
  also have "\<dots> = [1..<367]" by (simp only: map_Suc_upt) simp
  finally have d: "map day (annualData lat year) = [1..<367]" .
  have "length (annualData lat year) = 366" unfolding e by simp
  with e d show ?thesis by blast
qed

text \<open>The rounding is to the nearest multiple of 1/100.\<close>

lemma toFixed2_rounds:
  assumes "\<bar>v\<bar> < 10 ^ 21"
  shows "toFixed2 v * 100 \<in> \<int>" "\<bar>toFixed2 v - v\<bar> \<le> 1 / 200"
proof -
  show "toFixed2 v * 100 \<in> \<int>" using assms by (simp add: toFixed2_def)
  show "\<bar>toFixed2 v - v\<bar> \<le> 1 / 200"
  proof (cases "v < 0")
    case True
    define k where "k = \<lfloor>- v * 100 + 1 / 2\<rfloor>"
    have "of_int k \<le> - v * 100 + 1 / 2" "- v * 100 + 1 / 2 < of_int k + 1"
      unfolding k_def by linarith+
    then have "- (1 / 200) \<le> - (of_int k / 100) - v" "- (of_int k / 100) - v \<le> 1 / 200"
      by linarith+
    then have "\<bar>- (of_int k / 100) - v\<bar> \<le> 1 / 200" by linarith
    moreover have "toFixed2 v = - (of_int k / 100)"
      using True assms by (simp add: toFixed2_def k_def)
    ultimately show ?thesis by (simp only:)
  next
    case False
    define k where "k = \<lfloor>v * 100 + 1 / 2\<rfloor>"
    have "of_int k \<le> v * 100 + 1 / 2" "v * 100 + 1 / 2 < of_int k + 1"
      unfolding k_def by linarith+
    then have "- (1 / 200) \<le> of_int k / 100 - v" "of_int k / 100 - v \<le> 1 / 200"
      by linarith+
    then have "\<bar>of_int k / 100 - v\<bar> \<le> 1 / 200" by linarith
    moreover have "toFixed2 v = of_int k / 100"
      using False assms by (simp add: toFixed2_def k_def)
    ultimately show ?thesis by (simp only:)
  qed
qed

section \<open>Sunrise and sunset\<close>

lemma sin_ge_half:
  assumes "pi / 6 \<le> y" "y \<le> 5 * pi / 6"
  shows "1 / 2 \<le> sin y"
proof (cases "y \<le> pi / 2")
  case True
  have "sin (pi / 6) \<le> sin y"
    using assms True pi_gt_zero by (intro sin_monotone_2pi_le) linarith+
  then show ?thesis by (simp add: sin_30)
next
  case False
  have "sin (pi / 6) \<le> sin (pi - y)"
    using assms False pi_gt_zero by (intro sin_monotone_2pi_le) linarith+
  then show ?thesis by (simp add: sin_30)
qed

lemma sin_obliquity:
  "7 / 20 \<le> sin (toRadians 23.439)" "sin (toRadians 23.439) \<le> 1 / 2"
proof -
  let ?e = "toRadians 23.439"
  have e: "?e = 23439 * pi / 180000" by (simp add: toRadians_def DEG2RAD_def)
  have r: "pi / 8 \<le> ?e" "?e \<le> pi / 6" unfolding e using pi_gt_zero by linarith+
  have "sin ?e \<le> sin (pi / 6)"
    using r pi_gt_zero by (intro sin_monotone_2pi_le) linarith+
  then show "sin ?e \<le> 1 / 2" by (simp add: sin_30)
  have "cos (2 * ?e) \<le> cos (pi / 4)"
    using r pi_gt_zero by (intro cos_monotone_0_pi_le) linarith+
  moreover have "sqrt 2 \<le> 3 / 2" by (rule real_le_lsqrt) (simp_all add: power2_eq_square)
  ultimately have "cos (2 * ?e) \<le> 3 / 4" by (simp add: cos_45)
  then have "1 / 8 \<le> (sin ?e)\<^sup>2" by (simp add: cos_double_sin)
  then have "(7 / 20)\<^sup>2 \<le> (sin ?e)\<^sup>2" by (simp add: power2_eq_square)
  moreover have "0 \<le> sin ?e"
    using r pi_gt_zero by (intro sin_ge_zero) linarith+
  ultimately show "7 / 20 \<le> sin ?e" by (rule power2_le_imp_le)
qed

lemma sin_longitude_J2000:
  assumes "278 \<le> lam" "lam \<le> 283"
  shows "sin (toRadians lam) \<le> - (1 / 2)"
proof -
  let ?x = "toRadians lam"
  have x: "?x = lam * pi / 180" by (simp add: toRadians_def DEG2RAD_def)
  have "278 * pi \<le> lam * pi" "lam * pi \<le> 283 * pi"
    using assms pi_gt_zero by (simp_all add: mult_right_mono)
  then have "98 * pi / 180 \<le> ?x - pi" "?x - pi \<le> 103 * pi / 180"
    unfolding x by linarith+
  then have "1 / 2 \<le> sin (?x - pi)"
    using pi_gt_zero by (intro sin_ge_half) linarith+
  moreover have "sin (?x - pi + pi) = - sin (?x - pi)" by (rule sin_periodic_pi)
  ultimately show ?thesis by simp
qed

lemma normalizeDeg_id:
  assumes "0 \<le> a" "a < 360"
  shows "normalizeDeg a = a"
proof -
  have "\<lfloor>a / 360\<rfloor> = 0" using assms by (intro floor_unique) simp_all
  then have r1: "js_rem a 360 = a" using assms by (simp add: js_rem_def js_trunc_def)
  have "\<lfloor>(a + 360) / 360\<rfloor> = 1" using assms by (intro floor_unique) simp_all
  then have "js_rem (a + 360) 360 = a" using assms by (simp add: js_rem_def js_trunc_def)
  then show ?thesis by (simp add: normalizeDeg_def r1)
qed

lemma declination_J2000:
  "\<exists>s. - (1 / 2) \<le> s \<and> s \<le> - (7 / 40)
     \<and> sp_declination (calculateSolarPosition 2451545) = toDegrees (arcsin s)"
proof -
  define lam where
    "lam = 280.46 + 1.915 * sin (toRadians 357.528) + 0.020 * sin (2 * toRadians 357.528)"
  define s where "s = sin (toRadians 23.439) * sin (toRadians lam)"
  have d: "sp_declination (calculateSolarPosition 2451545) = toDegrees (arcsin s)"
    by (simp add: calculateSolarPosition_def J2000_EPOCH_def Let_def s_def lam_def
        normalizeDeg_id)
  define u where "u = sin (toRadians 357.528)"
  define w where "w = sin (2 * toRadians 357.528)"
  have "- 1 \<le> u" "u \<le> 1" "- 1 \<le> w" "w \<le> 1"
    by (simp_all add: u_def w_def)
  moreover have "lam = 280.46 + 1.915 * u + 0.020 * w"
    by (simp add: lam_def u_def w_def)
  ultimately have "278 \<le> lam" "lam \<le> 283" by simp_all
  then have l: "sin (toRadians lam) \<le> - (1 / 2)" by (rule sin_longitude_J2000)
  have l': "- 1 \<le> sin (toRadians lam)" by simp
  note e = sin_obliquity
  have "sin (toRadians 23.439) * sin (toRadians lam) \<le> sin (toRadians 23.439) * (- (1 / 2))"
    using e l by (intro mult_left_mono) linarith+
  then have up: "s \<le> - (7 / 40)" unfolding s_def using e by linarith
  have "sin (toRadians 23.439) * (- 1) \<le> sin (toRadians 23.439) * sin (toRadians lam)"
    using e l' by (intro mult_left_mono) linarith+
  then have lo: "- (1 / 2) \<le> s" unfolding s_def using e by linarith
  from lo up d show ?thesis by blast
qed

lemma polar_night_J2000:
  "calculateDaylightDurationPrecise 90 (sp_declination (calculateSolarPosition 2451545))
     TWILIGHT_OFFICIAL = 0"
proof -
  obtain s where s: "- (1 / 2) \<le> s" "s \<le> - (7 / 40)"
    and d: "sp_declination (calculateSolarPosition 2451545) = toDegrees (arcsin s)"
    using declination_J2000 by blast
  have rd: "toRadians (toDegrees (arcsin s)) = arcsin s"
    by (simp add: toRadians_def toDegrees_def DEG2RAD_def RAD2DEG_def)
  have sd: "sin (arcsin s) = s" using s by (intro sin_arcsin) linarith+
  have "- (pi / 2) < arcsin s \<and> arcsin s < pi / 2"
    using s by (intro arcsin_lt_bounded) linarith+
  then have cd: "0 < cos (arcsin s)" by (simp add: cos_gt_zero_pi)
  have cd': "cos (arcsin s) \<le> 1" by simp
  let ?lat = "toRadians 89.9"
  have lat: "?lat = 899 * pi / 1800" by (simp add: toRadians_def DEG2RAD_def)
  have sl: "1 / 2 \<le> sin ?lat"
    unfolding lat using pi_gt_zero by (intro sin_ge_half) linarith+
  have cl0: "0 < cos ?lat"
    unfolding lat using pi_gt_zero by (intro cos_gt_zero_pi) linarith+
  have "cos ?lat = sin (pi / 1800)"
    unfolding lat by (simp add: sin_cos_eq)
  also have "\<dots> \<le> pi / 1800" using pi_gt_zero by (intro sin_x_le_x) simp
  also have "\<dots> \<le> 1 / 400" using pi_less_4 by simp
  finally have cl: "cos ?lat \<le> 1 / 400" .
  let ?alt = "toRadians (- 0.833)"
  have alt: "?alt = - (833 * pi / 180000)" by (simp add: toRadians_def DEG2RAD_def)
  have "- (833 * pi / 180000) \<le> sin (833 * pi / 180000)"
    using pi_gt_zero by (intro sin_x_ge_neg_x) simp
  moreover have "833 * pi / 180000 \<le> 1 / 50" using pi_less_4 by simp
  ultimately have sa: "- (1 / 50) \<le> sin ?alt" unfolding alt
    using sin_x_le_x [of "833 * pi / 180000"] sin_ge_minus_one [of "833 * pi / 180000"]
    by simp
  have "1 / 2 * (7 / 40) \<le> sin ?lat * (- s)"
    using sl s by (intro mult_mono) linarith+
  then have N: "1 / 400 \<le> sin ?alt - sin ?lat * s" using sa by simp
  have "cos ?lat * cos (arcsin s) \<le> 1 / 400 * 1"
    using cl cd' cl0 cd by (intro mult_mono) linarith+
  then have D: "cos ?lat * cos (arcsin s) \<le> sin ?alt - sin ?lat * s" using N by simp
  have D0: "0 < cos ?lat * cos (arcsin s)" using cl0 cd by simp
  have "1 \<le> (sin ?alt - sin ?lat * s) / (cos ?lat * cos (arcsin s))"
    using D D0 by simp
  then have "1 \<le> sunrise_cos 90 (toDegrees (arcsin s)) TWILIGHT_OFFICIAL"
    by (simp add: sunrise_cos_def TWILIGHT_OFFICIAL_def rd sd)
  then show ?thesis by (simp add: dayLength_cases d)
qed

text \<open>Rounding to a double: the error, the magnitude, and the doubles as fixed points.\<close>

lemma rhe_int [simp]: "round_half_even (of_int k) = k"
  by (simp add: round_half_even_def)

lemma rhe_error: "\<bar>of_int (round_half_even t) - t\<bar> \<le> 1 / 2"
  unfolding round_half_even_def by (auto simp: abs_le_iff)

lemma rhe_le: "t \<le> of_int k \<Longrightarrow> round_half_even t \<le> k"
proof -
  assume "t \<le> of_int k"
  then have "of_int (round_half_even t) \<le> (of_int k :: real) + 1 / 2"
    using rhe_error [of t] by linarith
  then have "of_int (round_half_even t) < (of_int (k + 1) :: real)" by simp
  then have "round_half_even t < k + 1" by (simp only: of_int_less_iff)
  then show ?thesis by simp
qed

lemma rhe_ge: "of_int k \<le> t \<Longrightarrow> k \<le> round_half_even t"
proof -
  assume "of_int k \<le> t"
  then have "(of_int k :: real) - 1 / 2 \<le> of_int (round_half_even t)"
    using rhe_error [of t] by linarith
  then have "(of_int (k - 1) :: real) < of_int (round_half_even t)" by simp
  then have "k - 1 < round_half_even t" by (simp only: of_int_less_iff)
  then show ?thesis by simp
qed

lemma fl_0 [simp]: "fl 0 = 0"
  by (simp add: fl_def)

lemma fl_error: "\<bar>fl v - v\<bar> \<le> 2 powr of_int (double_exp v - 52) / 2"
proof (cases "v = 0")
  case True
  then show ?thesis by simp
next
  case False
  let ?u = "2 powr of_int (double_exp v - 52) :: real"
  have u: "0 < ?u" by simp
  have "fl v - v = (of_int (round_half_even (v / ?u)) - v / ?u) * ?u"
    using False u by (simp add: fl_def field_simps)
  then have "\<bar>fl v - v\<bar> = \<bar>of_int (round_half_even (v / ?u)) - v / ?u\<bar> * ?u"
    using u by (simp add: abs_mult)
  also have "\<dots> \<le> 1 / 2 * ?u"
    using u rhe_error [of "v / ?u"] by (intro mult_right_mono) simp_all
  finally show ?thesis by simp
qed

lemma double_exp_less:
  assumes "v \<noteq> 0" "\<bar>v\<bar> < 2 ^ n"
  shows "double_exp v < int n"
proof -
  have "log 2 \<bar>v\<bar> < real n" using assms by (simp add: log_less_iff powr_realpow)
  then have "\<lfloor>log 2 \<bar>v\<bar>\<rfloor> < int n" by linarith
  then show ?thesis by (simp add: double_exp_def)
qed

lemma fl_error_128:
  assumes "\<bar>v\<bar> < 128"
  shows "\<bar>fl v - v\<bar> \<le> 1 / 2 ^ 47"
proof (cases "v = 0")
  case True
  then show ?thesis by simp
next
  case False
  then have "double_exp v < int 7" using assms by (intro double_exp_less) simp_all
  then have "real_of_int (double_exp v - 52) \<le> - 46" by simp
  then have "2 powr of_int (double_exp v - 52) \<le> (2::real) powr (- 46)"
    by (simp only: powr_le_cancel_iff) 
  then have "2 powr of_int (double_exp v - 52) \<le> (1::real) / 2 ^ 46"
    by (simp add: powr_neg_numeral)
  then show ?thesis using fl_error [of v] by simp
qed


lemma abs_less_binade:
  assumes "v \<noteq> 0"
  shows "\<bar>v\<bar> < 2 powr of_int (double_exp v + 1)"
proof -
  have "\<lfloor>log 2 \<bar>v\<bar>\<rfloor> \<le> double_exp v" by (simp add: double_exp_def)
  then have "log 2 \<bar>v\<bar> < of_int (double_exp v + 1)" by linarith
  then show ?thesis using assms by (simp add: log_less_iff)
qed

lemma fl_idem: "fl (fl v) = fl v"
proof (cases "fl v = 0")
  case True
  then show ?thesis by simp
next
  case False
  then have v: "v \<noteq> 0" by auto
  define e where "e = double_exp v"
  define u :: real where "u = 2 powr of_int (e - 52)"
  define m where "m = round_half_even (v / u)"
  define y where "y = fl v"
  have y: "y = of_int m * u" using v by (simp add: y_def fl_def m_def u_def e_def)
  have u: "0 < u" by (simp add: u_def)
  have e: "- 1022 \<le> e" by (simp add: e_def double_exp_def)
  have "\<bar>v\<bar> < 2 powr of_int (e + 1)" using abs_less_binade [OF v] by (simp add: e_def)
  also have "\<dots> = 2 ^ 53 * u"
    by (simp add: u_def powr_diff powr_add)
  finally have vu: "\<bar>v / u\<bar> < 2 ^ 53" using u by (simp add: field_simps)
  have "v / u \<le> 2 ^ 53" "- (2 ^ 53) \<le> v / u" using vu by linarith+
  then have b: "v / u \<le> of_int (2 ^ 53)" "of_int (- (2 ^ 53)) \<le> v / u" by simp_all
  have m53: "m \<le> 2 ^ 53" "- (2 ^ 53) \<le> m"
    unfolding m_def using b rhe_le rhe_ge by blast+
  have y0: "y \<noteq> 0" using False by (simp add: y_def)
  define e' where "e' = double_exp y"
  have "\<bar>y\<bar> \<le> 2 ^ 53 * u"
    using m53 u by (simp add: y abs_mult)
  also have "\<dots> = 2 powr of_int (e + 1)" by (simp add: u_def powr_diff powr_add)
  finally have "log 2 \<bar>y\<bar> \<le> of_int (e + 1)" using y0 by (simp add: log_le_iff)
  then have "\<lfloor>log 2 \<bar>y\<bar>\<rfloor> \<le> e + 1" by linarith
  then have e'1: "e' \<le> e + 1" using e by (simp add: e'_def double_exp_def)
  have ratio: "y / 2 powr of_int (e' - 52) = of_int m * 2 powr of_int (e - e')"
    by (simp add: y u_def powr_diff field_simps)
  have "\<exists>k::int. y / 2 powr of_int (e' - 52) = of_int k"
  proof (cases "e' \<le> e")
    case True
    then have p: "(2::real) powr of_int (e - e') = 2 ^ nat (e - e')"
      by (subst powr_real_of_int) simp_all
    have "y / 2 powr of_int (e' - 52) = of_int m * 2 ^ nat (e - e')"
      by (simp only: ratio p)
    then have "y / 2 powr of_int (e' - 52) = of_int (m * 2 ^ nat (e - e'))"
      by simp
    then show ?thesis ..
  next
    case False
    with e'1 have ee: "e' = e + 1" by simp
    then have "\<lfloor>log 2 \<bar>y\<bar>\<rfloor> = e + 1" using e by (simp add: e'_def double_exp_def max_def split: if_splits)
    then have "of_int (e + 1) \<le> log 2 \<bar>y\<bar>" by linarith
    then have "2 powr of_int (e + 1) \<le> \<bar>y\<bar>" using y0 by (simp add: le_log_iff)
    then have "2 ^ 53 * u \<le> \<bar>of_int m\<bar> * u"
      by (simp add: y abs_mult u_def powr_diff powr_add)
    then have "(2 ^ 53 :: real) \<le> \<bar>of_int m\<bar>" using u by simp
    then have "(of_int (2 ^ 53) :: real) \<le> of_int \<bar>m\<bar>" by simp
    then have "2 ^ 53 \<le> \<bar>m\<bar>" by (simp only: of_int_le_iff)
    with m53 have "m = 2 ^ 53 \<or> m = - (2 ^ 53)" by linarith
    then have "even m" by auto
    then obtain k where mk: "m = 2 * k" by (elim evenE)
    have h: "(2::real) powr of_int (e - e') = 1 / 2"
      by (simp add: ee powr_minus_divide)
    have "y / 2 powr of_int (e' - 52) = of_int m * (1 / 2)"
      by (simp only: ratio h)
    also have "\<dots> = of_int k" by (simp add: mk)
    finally show ?thesis ..
  qed
  then obtain k :: int where k: "y / 2 powr of_int (e' - 52) = of_int k" ..
  have "round_half_even (y / 2 powr of_int (e' - 52)) = k"
    by (simp only: k rhe_int)
  then have "fl y = of_int k * 2 powr of_int (e' - 52)"
    using y0 unfolding fl_def e'_def by (simp only: if_False)
  also have "\<dots> = y" using k by (simp add: field_simps)
  finally show ?thesis by (simp add: y_def)
qed

lemma fl_binade:
  assumes "2 ^ n \<le> \<bar>v\<bar>" "\<bar>v\<bar> < 2 ^ (n + 1)"
  shows "fl v = of_int (round_half_even (v * 2 ^ 52 / 2 ^ n)) * 2 ^ n / 2 ^ 52"
proof -
  have "(0::real) < 2 ^ n" by simp
  then have v: "v \<noteq> 0" using assms(1) by linarith
  have "(2::real) powr of_int (int n) \<le> \<bar>v\<bar>" "\<bar>v\<bar> < 2 powr of_int (int n + 1)"
    using assms by (simp_all add: powr_realpow powr_add)
  then have "\<lfloor>log 2 \<bar>v\<bar>\<rfloor> = int n"
    using v by (subst floor_log_eq_powr_iff) simp_all
  then have e: "double_exp v = int n" by (simp add: double_exp_def)
  have u: "(2::real) powr of_int (int n - 52) = 2 ^ n / 2 ^ 52"
    by (simp add: powr_diff powr_realpow)
  have "fl v = of_int (round_half_even (v / 2 powr of_int (double_exp v - 52)))
                 * 2 powr of_int (double_exp v - 52)"
    using v by (simp only: fl_def if_False)
  then have "fl v = of_int (round_half_even (v / (2 ^ n / 2 ^ 52))) * (2 ^ n / 2 ^ 52)"
    by (simp only: e u)
  then show ?thesis by simp
qed

lemma fl_abs_128:
  assumes "\<bar>v\<bar> < 128"
  shows "\<bar>fl v\<bar> \<le> \<bar>v\<bar> + 1 / 2 ^ 47"
  using fl_error_128 [OF assms] by linarith

lemma normalizeDeg_range: "0 \<le> normalizeDeg a \<and> normalizeDeg a < 360"
proof -
  have "- 360 < js_rem a 360"
    using js_rem_neg [of a 360] js_rem_nonneg [of a 360] by (cases "a < 0") simp_all
  then have "0 \<le> js_rem a 360 + 360" by simp
  then show ?thesis
    using js_rem_nonneg [of "js_rem a 360 + 360" 360] by (simp add: normalizeDeg_def)
qed

lemma equationOfTime_bound: "\<bar>sp_equationOfTime (calculateSolarPosition jd)\<bar> \<le> 720"
proof -
  define L where "L = normalizeDeg (280.460 + 0.9856474 * (jd - J2000_EPOCH))"
  define al where "al = normalizeDeg (toDegrees (Math_atan2
      (cos (toRadians (23.439 - 0.0000004 * (jd - J2000_EPOCH)))
         * sin (toRadians (L + 1.915 * sin (toRadians (normalizeDeg (357.528 + 0.9856003 * (jd - J2000_EPOCH))))
                 + 0.020 * sin (2 * toRadians (normalizeDeg (357.528 + 0.9856003 * (jd - J2000_EPOCH)))))))
      (cos (toRadians (L + 1.915 * sin (toRadians (normalizeDeg (357.528 + 0.9856003 * (jd - J2000_EPOCH))))
                 + 0.020 * sin (2 * toRadians (normalizeDeg (357.528 + 0.9856003 * (jd - J2000_EPOCH)))))))))"
  have r: "0 \<le> L" "L < 360" "0 \<le> al" "al < 360"
    using normalizeDeg_range by (simp_all add: L_def al_def)
  have "sp_equationOfTime (calculateSolarPosition jd)
        = 4 * (let d = L - al;
                   d = (if d > 180 then d - 360 else d)
               in (if d < - 180 then d + 360 else d))"
    unfolding calculateSolarPosition_def L_def al_def Let_def by simp
  then show ?thesis using r by (simp add: Let_def abs_le_iff)
qed

lemma dayLength_bounds:
  "0 \<le> calculateDaylightDurationPrecise lat dec thr"
  "calculateDaylightDurationPrecise lat dec thr \<le> 24"
  using arc_hours_bounds [of "sunrise_cos lat dec thr"]
  by (auto simp: dayLength_cases)

lemma polar_day_J2000:
  "calculateDaylightDurationPrecise (- 90) (sp_declination (calculateSolarPosition 2451545))
     TWILIGHT_OFFICIAL = 24"
proof -
  obtain s where s: "- (1 / 2) \<le> s" "s \<le> - (7 / 40)"
    and d: "sp_declination (calculateSolarPosition 2451545) = toDegrees (arcsin s)"
    using declination_J2000 by blast
  have rd: "toRadians (toDegrees (arcsin s)) = arcsin s"
    by (simp add: toRadians_def toDegrees_def DEG2RAD_def RAD2DEG_def)
  have sd: "sin (arcsin s) = s" using s by (intro sin_arcsin) linarith+
  have "- (pi / 2) < arcsin s \<and> arcsin s < pi / 2"
    using s by (intro arcsin_lt_bounded) linarith+
  then have cd: "0 < cos (arcsin s)" by (simp add: cos_gt_zero_pi)
  have cd': "cos (arcsin s) \<le> 1" by simp
  let ?lat = "toRadians 89.9"
  have neg: "toRadians (- 89.9) = - ?lat" by (simp add: toRadians_def)
  have lat: "?lat = 899 * pi / 1800" by (simp add: toRadians_def DEG2RAD_def)
  have sl: "1 / 2 \<le> sin ?lat"
    unfolding lat using pi_gt_zero by (intro sin_ge_half) linarith+
  have cl0: "0 < cos ?lat"
    unfolding lat using pi_gt_zero by (intro cos_gt_zero_pi) linarith+
  have "cos ?lat = sin (pi / 1800)"
    unfolding lat by (simp add: sin_cos_eq)
  also have "\<dots> \<le> pi / 1800" using pi_gt_zero by (intro sin_x_le_x) simp
  also have "\<dots> \<le> 1 / 400" using pi_less_4 by simp
  finally have cl: "cos ?lat \<le> 1 / 400" .
  let ?alt = "toRadians (- 0.833)"
  have alt: "?alt = - (833 * pi / 180000)" by (simp add: toRadians_def DEG2RAD_def)
  have "0 \<le> sin (833 * pi / 180000)"
    using pi_gt_zero by (intro sin_ge_zero) linarith+
  then have sa: "sin ?alt \<le> 0" unfolding alt by simp
  have "1 / 2 * (7 / 40) \<le> sin ?lat * (- s)"
    using sl s by (intro mult_mono) linarith+
  then have N: "sin ?alt + sin ?lat * s \<le> - (1 / 400)" using sa by simp
  have "cos ?lat * cos (arcsin s) \<le> 1 / 400 * 1"
    using cl cd' cl0 cd by (intro mult_mono) linarith+
  then have D: "sin ?alt + sin ?lat * s \<le> - 1 * (cos ?lat * cos (arcsin s))"
    using N by simp
  have D0: "0 < cos ?lat * cos (arcsin s)" using cl0 cd by simp
  have "(sin ?alt + sin ?lat * s) / (cos ?lat * cos (arcsin s)) \<le> - 1"
    using D D0 by (simp only: pos_divide_le_eq)
  then have "sunrise_cos (- 90) (toDegrees (arcsin s)) TWILIGHT_OFFICIAL \<le> - 1"
    by (simp add: sunrise_cos_def TWILIGHT_OFFICIAL_def rd sd neg)
  then show ?thesis by (simp add: dayLength_cases d)
qed

lemma dayLength_engine:
  "dayLength (solarData (engine (useCosmicEngine now dt tod lat lon ua)))
   = calculateDaylightDurationPrecise lat
       (sp_declination (calculateSolarPosition
          (getJulianDate (case dt of Some d \<Rightarrow> d | None \<Rightarrow> now) tod)))
       TWILIGHT_OFFICIAL"
  by (simp add: useCosmicEngine_def engineData_def Let_def)

lemma solarNoon_engine:
  "solarNoon (solarData (engine (useCosmicEngine now dt tod lat lon ua)))
   = fl (fl (12 - fl (lon / 15))
         - fl ((if ua then sp_equationOfTime (calculateSolarPosition
                  (getJulianDate (case dt of Some d \<Rightarrow> d | None \<Rightarrow> now) tod)) else 0) / 60))"
  by (simp add: useCosmicEngine_def engineData_def Let_def)

lemma sunrise_engine:
  "sunrise (solarData (engine (useCosmicEngine now dt tod lat lon ua)))
   = fl (solarNoon (solarData (engine (useCosmicEngine now dt tod lat lon ua)))
         - fl (dayLength (solarData (engine (useCosmicEngine now dt tod lat lon ua))) / 2))"
  by (simp add: useCosmicEngine_def engineData_def Let_def)

lemma sunset_engine:
  "sunset (solarData (engine (useCosmicEngine now dt tod lat lon ua)))
   = fl (solarNoon (solarData (engine (useCosmicEngine now dt tod lat lon ua)))
         + fl (dayLength (solarData (engine (useCosmicEngine now dt tod lat lon ua))) / 2))"
  by (simp add: useCosmicEngine_def engineData_def Let_def)

lemma fl_examples:
  "fl (- (120 + 1 / 2 ^ 44) / 15) = - (8 + 1 / 2 ^ 48)"
  "fl (12 - (- (8 + 1 / 2 ^ 48))) = 20 + 1 / 2 ^ 48"
  "fl (20 + 1 / 2 ^ 48 - 0) = 20 + 1 / 2 ^ 48"
  "fl (24 / 2) = 12"
  "fl (20 + 1 / 2 ^ 48 - 12) = 8 + 1 / 2 ^ 48"
  "fl (20 + 1 / 2 ^ 48 + 12) = 32"
proof -
  show "fl (- (120 + 1 / 2 ^ 44) / 15) = - (8 + 1 / 2 ^ 48)"
    by (subst fl_binade [of 3]) (simp_all add: round_half_even_def)
  show "fl (12 - (- (8 + 1 / 2 ^ 48))) = 20 + 1 / 2 ^ 48"
    by (subst fl_binade [of 4]) (simp_all add: round_half_even_def)
  show "fl (20 + 1 / 2 ^ 48 - 0) = 20 + 1 / 2 ^ 48"
    by (subst fl_binade [of 4]) (simp_all add: round_half_even_def)
  show "fl (24 / 2) = 12"
    by (subst fl_binade [of 3]) (simp_all add: round_half_even_def)
  show "fl (20 + 1 / 2 ^ 48 - 12) = 8 + 1 / 2 ^ 48"
    by (subst fl_binade [of 3]) (simp_all add: round_half_even_def)
  show "fl (20 + 1 / 2 ^ 48 + 12) = 32"
    by (subst fl_binade [of 5]) (simp_all add: round_half_even_def)
qed

lemma fl_abs_le:
  assumes "\<bar>v\<bar> \<le> B" "B \<le> 127"
  shows "\<bar>fl v\<bar> \<le> B + 1"
proof -
  have "\<bar>v\<bar> < 128" using assms by linarith
  then have "\<bar>fl v\<bar> \<le> \<bar>v\<bar> + 1 / 2 ^ 47" by (rule fl_abs_128)
  moreover have "(1::real) / 2 ^ 47 \<le> 1" by simp
  ultimately show ?thesis using assms by linarith
qed

text \<open>
  The claim C10 as stated, with exact equalities, fails where the two results are rounded.
  At the south pole on 2000-01-01 at 12:00, at longitude -(120 + 2^(-44)) and without the
  correction, the day length is 24 and the solar noon is 20 + 2^(-48); the sunrise
  8 + 2^(-48) is exact, the sunset 32 + 2^(-48) is a tie and rounds to 32. So sunset minus
  sunrise is 24 - 2^(-48), not the day length, and sunrise plus sunset is 40 + 2^(-48), not
  twice the solar noon.
\<close>

theorem solar_window_inexact:
  "dayLength (solarData (engine (useCosmicEngine (new_Date 2000 0 1)
       (Some (new_Date 2000 0 1)) 12 (- 90) (- (120 + 1 / 2 ^ 44)) False))) = 24
   \<and> solarNoon (solarData (engine (useCosmicEngine (new_Date 2000 0 1)
       (Some (new_Date 2000 0 1)) 12 (- 90) (- (120 + 1 / 2 ^ 44)) False))) = 20 + 1 / 2 ^ 48
   \<and> sunrise (solarData (engine (useCosmicEngine (new_Date 2000 0 1)
       (Some (new_Date 2000 0 1)) 12 (- 90) (- (120 + 1 / 2 ^ 44)) False))) = 8 + 1 / 2 ^ 48
   \<and> sunset (solarData (engine (useCosmicEngine (new_Date 2000 0 1)
       (Some (new_Date 2000 0 1)) 12 (- 90) (- (120 + 1 / 2 ^ 44)) False))) = 32
   \<and> sunset (solarData (engine (useCosmicEngine (new_Date 2000 0 1)
       (Some (new_Date 2000 0 1)) 12 (- 90) (- (120 + 1 / 2 ^ 44)) False)))
     - sunrise (solarData (engine (useCosmicEngine (new_Date 2000 0 1)
       (Some (new_Date 2000 0 1)) 12 (- 90) (- (120 + 1 / 2 ^ 44)) False)))
     \<noteq> dayLength (solarData (engine (useCosmicEngine (new_Date 2000 0 1)
       (Some (new_Date 2000 0 1)) 12 (- 90) (- (120 + 1 / 2 ^ 44)) False)))
   \<and> sunrise (solarData (engine (useCosmicEngine (new_Date 2000 0 1)
       (Some (new_Date 2000 0 1)) 12 (- 90) (- (120 + 1 / 2 ^ 44)) False)))
     + sunset (solarData (engine (useCosmicEngine (new_Date 2000 0 1)
       (Some (new_Date 2000 0 1)) 12 (- 90) (- (120 + 1 / 2 ^ 44)) False)))
     \<noteq> 2 * solarNoon (solarData (engine (useCosmicEngine (new_Date 2000 0 1)
       (Some (new_Date 2000 0 1)) 12 (- 90) (- (120 + 1 / 2 ^ 44)) False)))"
proof -
  let ?S = "solarData (engine (useCosmicEngine (new_Date 2000 0 1)
       (Some (new_Date 2000 0 1)) 12 (- 90) (- (120 + 1 / 2 ^ 44)) False))"
  have j: "getJulianDate (new_Date 2000 0 1) 12 = 2451545"
    by (simp add: new_Date_def makeDay.simps daysInMonth_def getJulianDate_def)
  have d: "dayLength ?S = 24"
    by (simp only: dayLength_engine option.case j polar_day_J2000)
  have "solarNoon ?S = fl (fl (12 - fl (- (120 + 1 / 2 ^ 44) / 15)) - fl (0 / 60))"
    by (simp only: solarNoon_engine if_False)
  then have n: "solarNoon ?S = 20 + 1 / 2 ^ 48"
    by (simp only: fl_examples div_0 fl_0)
  have r: "sunrise ?S = 8 + 1 / 2 ^ 48"
    by (simp only: sunrise_engine d n fl_examples)
  have s: "sunset ?S = 32"
    by (simp only: sunset_engine d n fl_examples)
  show ?thesis unfolding d n r s by simp
qed

text \<open>
  C10, amended. For every input of the engine, sunrise and sunset are the solar noon minus
  and plus half the day length, each rounded to a double. When the day length is 0, sunrise
  and sunset are both the solar noon, exactly. Sunset minus sunrise is the day length, and
  sunrise plus sunset is twice the solar noon, up to that rounding only: for a longitude
  from -180 to 180 degrees, within 2^(-45) and 2^(-46) hours. The day length is 0 at the
  north pole on 2000-01-01.
\<close>

theorem solar_window_rounded:
  "sunrise (solarData (engine (useCosmicEngine now dt tod lat lon ua)))
     = fl (solarNoon (solarData (engine (useCosmicEngine now dt tod lat lon ua)))
           - fl (dayLength (solarData (engine (useCosmicEngine now dt tod lat lon ua))) / 2))
   \<and> sunset (solarData (engine (useCosmicEngine now dt tod lat lon ua)))
     = fl (solarNoon (solarData (engine (useCosmicEngine now dt tod lat lon ua)))
           + fl (dayLength (solarData (engine (useCosmicEngine now dt tod lat lon ua))) / 2))
   \<and> (dayLength (solarData (engine (useCosmicEngine now dt tod lat lon ua))) = 0 \<longrightarrow>
        sunrise (solarData (engine (useCosmicEngine now dt tod lat lon ua)))
          = solarNoon (solarData (engine (useCosmicEngine now dt tod lat lon ua)))
      \<and> sunset (solarData (engine (useCosmicEngine now dt tod lat lon ua)))
          = solarNoon (solarData (engine (useCosmicEngine now dt tod lat lon ua))))
   \<and> (\<bar>lon\<bar> \<le> 180 \<longrightarrow>
        \<bar>sunset (solarData (engine (useCosmicEngine now dt tod lat lon ua)))
           - sunrise (solarData (engine (useCosmicEngine now dt tod lat lon ua)))
           - dayLength (solarData (engine (useCosmicEngine now dt tod lat lon ua)))\<bar>
          \<le> 1 / 2 ^ 45
      \<and> \<bar>sunrise (solarData (engine (useCosmicEngine now dt tod lat lon ua)))
           + sunset (solarData (engine (useCosmicEngine now dt tod lat lon ua)))
           - 2 * solarNoon (solarData (engine (useCosmicEngine now dt tod lat lon ua)))\<bar>
          \<le> 1 / 2 ^ 46)"
proof -
  let ?S = "solarData (engine (useCosmicEngine now dt tod lat lon ua))"
  define N where "N = solarNoon ?S"
  define d where "d = dayLength ?S"
  define h where "h = fl (d / 2)"
  define c where "c = fl ((if ua then sp_equationOfTime (calculateSolarPosition
                  (getJulianDate (case dt of Some d \<Rightarrow> d | None \<Rightarrow> now) tod)) else 0) / 60)"
  have r: "sunrise ?S = fl (N - h)" and s: "sunset ?S = fl (N + h)"
    by (simp_all only: sunrise_engine sunset_engine N_def d_def h_def)
  have N: "N = fl (fl (12 - fl (lon / 15)) - c)"
    by (simp only: N_def c_def solarNoon_engine)
  have zero: "sunrise ?S = N \<and> sunset ?S = N" if "d = 0"
  proof -
    have "h = 0" using that by (simp add: h_def)
    then have "sunrise ?S = fl N" "sunset ?S = fl N" by (simp_all add: r s)
    moreover have "fl N = N" unfolding N by (rule fl_idem)
    ultimately show ?thesis by simp
  qed
  have err: "\<bar>fl (N + h) - fl (N - h) - d\<bar> \<le> 1 / 2 ^ 45
           \<and> \<bar>fl (N - h) + fl (N + h) - 2 * N\<bar> \<le> 1 / 2 ^ 46" if lon: "\<bar>lon\<bar> \<le> 180"
  proof -
    have d: "0 \<le> d" "d \<le> 24"
      using dayLength_bounds by (simp_all add: d_def dayLength_engine)
    have "\<bar>lon / 15\<bar> \<le> 12" using lon by simp
    then have q: "\<bar>fl (lon / 15)\<bar> \<le> 12 + 1" by (rule fl_abs_le) simp
    then have "\<bar>12 - fl (lon / 15)\<bar> \<le> 25" by linarith
    then have a: "\<bar>fl (12 - fl (lon / 15))\<bar> \<le> 25 + 1" by (rule fl_abs_le) simp
    have "\<bar>(if ua then sp_equationOfTime (calculateSolarPosition
                  (getJulianDate (case dt of Some d \<Rightarrow> d | None \<Rightarrow> now) tod)) else 0) / 60\<bar> \<le> 12"
      using equationOfTime_bound
        [of "getJulianDate (case dt of Some d \<Rightarrow> d | None \<Rightarrow> now) tod"]
      by simp
    then have c: "\<bar>c\<bar> \<le> 12 + 1" unfolding c_def by (rule fl_abs_le) simp
    have "\<bar>fl (12 - fl (lon / 15)) - c\<bar> \<le> 39" using a c by linarith
    then have n: "\<bar>N\<bar> \<le> 39 + 1" unfolding N by (rule fl_abs_le) simp
    have "\<bar>d / 2\<bar> < 128" using d by simp
    then have h1: "\<bar>h - d / 2\<bar> \<le> 1 / 2 ^ 47"
      unfolding h_def by (rule fl_error_128)
    have "\<bar>d / 2\<bar> \<le> 12" using d by simp
    then have h2: "\<bar>h\<bar> \<le> 12 + 1" unfolding h_def by (rule fl_abs_le) simp
    have "\<bar>N - h\<bar> < 128" using n h2 by linarith
    then have e1: "\<bar>fl (N - h) - (N - h)\<bar> \<le> 1 / 2 ^ 47" by (rule fl_error_128)
    have "\<bar>N + h\<bar> < 128" using n h2 by linarith
    then have e2: "\<bar>fl (N + h) - (N + h)\<bar> \<le> 1 / 2 ^ 47" by (rule fl_error_128)
    have "(1::real) / 2 ^ 45 = 4 * (1 / 2 ^ 47)" "(1::real) / 2 ^ 46 = 2 * (1 / 2 ^ 47)"
      by simp_all
    then show ?thesis using h1 e1 e2 by linarith
  qed
  show ?thesis
    using zero err by (simp add: r s N_def [symmetric] d_def [symmetric] h_def [symmetric])
qed

theorem solar_window_rounded_witness:
  "dayLength (solarData (engine (useCosmicEngine (new_Date 2000 0 1)
       (Some (new_Date 2000 0 1)) 12 90 0 True))) = 0
   \<and> \<bar>0 :: real\<bar> \<le> 180
   \<and> sunrise (solarData (engine (useCosmicEngine (new_Date 2000 0 1)
       (Some (new_Date 2000 0 1)) 12 90 0 True)))
     = solarNoon (solarData (engine (useCosmicEngine (new_Date 2000 0 1)
       (Some (new_Date 2000 0 1)) 12 90 0 True)))
   \<and> sunset (solarData (engine (useCosmicEngine (new_Date 2000 0 1)
       (Some (new_Date 2000 0 1)) 12 90 0 True)))
     = solarNoon (solarData (engine (useCosmicEngine (new_Date 2000 0 1)
       (Some (new_Date 2000 0 1)) 12 90 0 True)))
   \<and> \<bar>sunset (solarData (engine (useCosmicEngine (new_Date 2000 0 1)
       (Some (new_Date 2000 0 1)) 12 90 0 True)))
      - sunrise (solarData (engine (useCosmicEngine (new_Date 2000 0 1)
       (Some (new_Date 2000 0 1)) 12 90 0 True)))
      - dayLength (solarData (engine (useCosmicEngine (new_Date 2000 0 1)
       (Some (new_Date 2000 0 1)) 12 90 0 True)))\<bar> \<le> 1 / 2 ^ 45"
proof -
  have j: "getJulianDate (new_Date 2000 0 1) 12 = 2451545"
    by (simp add: new_Date_def makeDay.simps daysInMonth_def getJulianDate_def)
  have "dayLength (solarData (engine (useCosmicEngine (new_Date 2000 0 1)
       (Some (new_Date 2000 0 1)) 12 90 0 True))) = 0"
    by (simp only: dayLength_engine option.case j polar_night_J2000)
  moreover have "\<bar>0 :: real\<bar> \<le> 180" by simp
  ultimately show ?thesis
    using solar_window_rounded [of "new_Date 2000 0 1" "Some (new_Date 2000 0 1)" 12 90 0 True]
    by blast
qed

end
